theory Spec2Isabelle
  imports Complex_Main "HOL-Library.Multiset" "HOL-Library.Sublist"
begin

section \<open>Data model of \<^verbatim>\<open>dtree.py\<close>\<close>

text \<open>
  The program is Python 2 and works on raw values: a record is a \<^verbatim>\<open>dict\<close> from attribute
  names to attribute values, and a tree is either a bare scalar (a leaf) or a single-key
  \<^verbatim>\<open>dict\<close> \<^verbatim>\<open>{best: {value: subtree, ...}}\<close>. The embedding keeps that shape.

  \<^item> \<open>scalar\<close>: the attribute values and labels: \<^verbatim>\<open>None\<close>, integers and byte strings.
    On these Python's \<^verbatim>\<open>==\<close> is HOL equality.
  \<^item> \<open>pyobj\<close>: a scalar or a \<^verbatim>\<open>dict\<close> keyed by scalars, written as an association list
    in iteration order; \<^verbatim>\<open>d[k] = v\<close> is \<open>dict_set\<close>, so keys stay distinct.
  \<^item> \<open>py_record\<close>: a record, keyed by attribute names (strings).
  \<^item> Python floats are modelled by the real numbers and \<^verbatim>\<open>numpy.log2\<close> by \<open>log 2\<close>:
    rounding is not modelled.
  \<^item> \<^verbatim>\<open>list(set(lst))\<close> enumerates the distinct elements of \<^verbatim>\<open>lst\<close> in the order of
    CPython's hash table, which the source does not determine. It is the parameter
    \<open>so\<close> of every function that uses it.
\<close>

datatype scalar = SNone | SInt int | SStr string

datatype pyobj = Scalar scalar | Dict "(scalar \<times> pyobj) list"

datatype error = KeyError | AttributeError | IndexError | TypeError | SyntaxError | ValueError | IOError

type_synonym py_record = "string \<rightharpoonup> scalar"

type_synonym set_order = "scalar list \<Rightarrow> scalar list"

record DTree =
  data :: "py_record list"
  attributes :: "scalar list"
  target_attr :: scalar
  tree :: pyobj

text \<open>\<^verbatim>\<open>__init__\<close>: copies of the arguments, and no tree yet.\<close>

definition init :: "py_record list \<Rightarrow> scalar list \<Rightarrow> scalar \<Rightarrow> DTree" where
  "init dat attrs target =
     \<lparr>data = dat, attributes = attrs, target_attr = target, tree = Scalar SNone\<rparr>"

text \<open>\<^verbatim>\<open>record[k]\<close>: raises \<^verbatim>\<open>KeyError\<close> when the key is missing.\<close>

definition getitem :: "py_record \<Rightarrow> scalar \<Rightarrow> error + scalar" where
  "getitem r k =
     (case k of
        SStr a \<Rightarrow> (case r a of None \<Rightarrow> Inl KeyError | Some v \<Rightarrow> Inr v)
      | _ \<Rightarrow> Inl KeyError)"

text \<open>\<^verbatim>\<open>[record[k] for record in data]\<close>.\<close>

fun column :: "py_record list \<Rightarrow> scalar \<Rightarrow> error + scalar list" where
  "column [] k = Inr []"
| "column (r # rs) k =
     (case getitem r k of
        Inl e \<Rightarrow> Inl e
      | Inr v \<Rightarrow> (case column rs k of Inl e \<Rightarrow> Inl e | Inr vs \<Rightarrow> Inr (v # vs)))"

text \<open>\<^verbatim>\<open>d[k] = v\<close> on a \<^verbatim>\<open>dict\<close>: replace the value of an existing key, or add the key.\<close>

fun dict_set :: "(scalar \<times> 'v) list \<Rightarrow> scalar \<Rightarrow> 'v \<Rightarrow> (scalar \<times> 'v) list" where
  "dict_set [] k v = [(k, v)]"
| "dict_set ((k', v') # rest) k v =
     (if k' = k then (k', v) # rest else (k', v') # dict_set rest k v)"

section \<open>Attribute statistics\<close>

text \<open>
  The counting loop of \<^verbatim>\<open>_entropy\<close> and \<^verbatim>\<open>_gain\<close>:
  \<^verbatim>\<open>if val_freq.has_key(key): val_freq[key] += 1.0 else: val_freq[key] = 1.0\<close>.
\<close>

fun bump :: "(scalar \<times> real) list \<Rightarrow> scalar \<Rightarrow> (scalar \<times> real) list" where
  "bump [] key = [(key, 1)]"
| "bump ((k, f) # rest) key =
     (if k = key then (k, f + 1) # rest else (k, f) # bump rest key)"

fun count_freq :: "py_record list \<Rightarrow> scalar \<Rightarrow> (scalar \<times> real) list \<Rightarrow> error + (scalar \<times> real) list" where
  "count_freq [] k val_freq = Inr val_freq"
| "count_freq (r # rs) k val_freq =
     (case getitem r k of
        Inl e \<Rightarrow> Inl e
      | Inr key \<Rightarrow> count_freq rs k (bump val_freq key))"

text \<open>
  \<^verbatim>\<open>_entropy\<close>: \<^verbatim>\<open>data_entropy += -freq / len(data) * log2(freq / len(data))\<close> for every
  \<^verbatim>\<open>freq\<close> of \<^verbatim>\<open>val_freq.values()\<close>.
\<close>

definition entropy :: "py_record list \<Rightarrow> scalar \<Rightarrow> error + real" where
  "entropy dat target =
     (case count_freq dat target [] of
        Inl e \<Rightarrow> Inl e
      | Inr val_freq \<Rightarrow>
          Inr (foldl (\<lambda>data_entropy freq.
                 data_entropy + (- freq / real (length dat) * log 2 (freq / real (length dat))))
               0 (map snd val_freq)))"

text \<open>
  \<^verbatim>\<open>_gain\<close>: the loop over \<^verbatim>\<open>val_freq.keys()\<close> adds
  \<^verbatim>\<open>val_prob * self._entropy(data_subset, target_attr)\<close>; the entropy of the whole data is
  computed after the loop.
\<close>

fun gain_loop :: "py_record list \<Rightarrow> scalar \<Rightarrow> scalar \<Rightarrow> (scalar \<times> real) list \<Rightarrow>
    (scalar \<times> real) list \<Rightarrow> real \<Rightarrow> error + real" where
  "gain_loop dat attr target val_freq [] subset_entropy = Inr subset_entropy"
| "gain_loop dat attr target val_freq ((val, f) # rest) subset_entropy =
     (let val_prob = f / sum_list (map snd val_freq);
          data_subset = filter (\<lambda>r. getitem r attr = Inr val) dat
      in case entropy data_subset target of
           Inl e \<Rightarrow> Inl e
         | Inr h \<Rightarrow> gain_loop dat attr target val_freq rest (subset_entropy + val_prob * h))"

definition gain :: "py_record list \<Rightarrow> scalar \<Rightarrow> scalar \<Rightarrow> error + real" where
  "gain dat attr target =
     (case count_freq dat attr [] of
        Inl e \<Rightarrow> Inl e
      | Inr val_freq \<Rightarrow>
          (case gain_loop dat attr target val_freq val_freq 0 of
             Inl e \<Rightarrow> Inl e
           | Inr subset_entropy \<Rightarrow>
               (case entropy dat target of
                  Inl e \<Rightarrow> Inl e
                | Inr h \<Rightarrow> Inr (h - subset_entropy))))"

section \<open>Tree builder\<close>

text \<open>
  \<^verbatim>\<open>_majority_value\<close>: the loop over \<^verbatim>\<open>unique_lst = list(set(lst))\<close> keeps the first value
  whose count is strictly greater than the running \<^verbatim>\<open>highest_freq\<close>.
\<close>

fun majority_loop :: "scalar list \<Rightarrow> scalar list \<Rightarrow> nat \<Rightarrow> scalar \<Rightarrow> scalar" where
  "majority_loop lst [] highest_freq most_freq = most_freq"
| "majority_loop lst (val # rest) highest_freq most_freq =
     (if count_list lst val > highest_freq
      then majority_loop lst rest (count_list lst val) val
      else majority_loop lst rest highest_freq most_freq)"

definition majority_value :: "set_order \<Rightarrow> py_record list \<Rightarrow> scalar \<Rightarrow> error + scalar" where
  "majority_value so dat target =
     (case column dat target of
        Inl e \<Rightarrow> Inl e
      | Inr lst \<Rightarrow> Inr (majority_loop lst (so lst) 0 SNone))"

text \<open>
  \<^verbatim>\<open>_choose_attribute\<close>: \<^verbatim>\<open>best_gain = 0.0\<close>, \<^verbatim>\<open>best_attr = None\<close>, and for every attribute
  \<^verbatim>\<open>if gain >= best_gain and attr != target_attr\<close> both are replaced.
\<close>

fun choose_loop :: "py_record list \<Rightarrow> scalar \<Rightarrow> scalar list \<Rightarrow> real \<Rightarrow> scalar \<Rightarrow> error + scalar" where
  "choose_loop dat target [] best_gain best_attr = Inr best_attr"
| "choose_loop dat target (attr # rest) best_gain best_attr =
     (case gain dat attr target of
        Inl e \<Rightarrow> Inl e
      | Inr g \<Rightarrow>
          if g \<ge> best_gain \<and> attr \<noteq> target
          then choose_loop dat target rest g attr
          else choose_loop dat target rest best_gain best_attr)"

definition choose_attribute :: "py_record list \<Rightarrow> scalar list \<Rightarrow> scalar \<Rightarrow> error + scalar" where
  "choose_attribute dat attrs target = choose_loop dat target attrs 0 SNone"

text \<open>\<^verbatim>\<open>_get_values\<close>: \<^verbatim>\<open>list(set([record[attr] for record in data]))\<close>.\<close>

definition get_values :: "set_order \<Rightarrow> py_record list \<Rightarrow> scalar \<Rightarrow> error + scalar list" where
  "get_values so dat attr =
     (case column dat attr of Inl e \<Rightarrow> Inl e | Inr lst \<Rightarrow> Inr (so lst))"

text \<open>
  \<^verbatim>\<open>_get_examples\<close>: \<^verbatim>\<open>data.pop()\<close> takes the records from the end, so the matching
  records come out in reverse order.
\<close>

fun get_examples_loop :: "py_record list \<Rightarrow> scalar \<Rightarrow> scalar \<Rightarrow> py_record list \<Rightarrow> error + py_record list" where
  "get_examples_loop [] attr val lst = Inr lst"
| "get_examples_loop (r # rs) attr val lst =
     (case getitem r attr of
        Inl e \<Rightarrow> Inl e
      | Inr v \<Rightarrow> get_examples_loop rs attr val (if v = val then lst @ [r] else lst))"

definition get_examples :: "py_record list \<Rightarrow> scalar \<Rightarrow> scalar \<Rightarrow> error + py_record list" where
  "get_examples dat attr val = get_examples_loop (rev dat) attr val []"

lemma column_Cons_Inr:
  "column (r # rs) k = Inr vs \<Longrightarrow> \<exists>v. getitem r k = Inr v"
  by (auto split: sum.splits)

lemma choose_loop_mem:
  "choose_loop dat target attrs g b = Inr best \<Longrightarrow> best = b \<or> best \<in> set attrs"
  by (induction attrs arbitrary: g b) (auto split: sum.splits if_splits)

lemma getitem_SNone [simp]: "getitem r SNone = Inl KeyError"
  by (simp add: getitem_def)

lemma best_in_attributes:
  assumes "dat \<noteq> []"
    and "choose_attribute dat attrs target = Inr best"
    and "get_values so dat best = Inr vals"
  shows "best \<in> set attrs"
proof -
  obtain r rs where dat: "dat = r # rs"
    using assms(1) by (cases dat) auto
  from assms(3) obtain lst where "column dat best = Inr lst"
    by (auto simp: get_values_def split: sum.splits)
  then have "best \<noteq> SNone"
    using dat by (auto split: sum.splits)
  moreover have "best = SNone \<or> best \<in> set attrs"
    using assms(2) choose_loop_mem unfolding choose_attribute_def by blast
  ultimately show ?thesis by simp
qed

text \<open>
  \<^verbatim>\<open>_make_tree\<close>. The \<^verbatim>\<open>for value in self._get_values(data, best)\<close> loop is
  \<open>make_subtrees\<close>; it carries \<^verbatim>\<open>tree[best]\<close>. The list \<^verbatim>\<open>values\<close> is read from
  \<^verbatim>\<open>self.target_attr\<close>, everything else from the parameter \<^verbatim>\<open>target_attr\<close>.
\<close>

function make_tree :: "set_order \<Rightarrow> DTree \<Rightarrow> py_record list \<Rightarrow> scalar list \<Rightarrow> scalar \<Rightarrow> error + pyobj"
  and make_subtrees :: "set_order \<Rightarrow> DTree \<Rightarrow> py_record list \<Rightarrow> scalar list \<Rightarrow> scalar \<Rightarrow> scalar \<Rightarrow>
    scalar list \<Rightarrow> (scalar \<times> pyobj) list \<Rightarrow> error + (scalar \<times> pyobj) list" where
  "make_tree so self dat attrs target =
     (case column dat (target_attr self) of
        Inl e \<Rightarrow> Inl e
      | Inr vals \<Rightarrow>
     (case majority_value so dat target of
        Inl e \<Rightarrow> Inl e
      | Inr dflt \<Rightarrow>
          if dat = [] \<or> int (length attrs) - 1 \<le> 0 then Inr (Scalar dflt)
          else if count_list vals (hd vals) = length vals then Inr (Scalar (hd vals))
          else
            (case choose_attribute dat attrs target of
               Inl e \<Rightarrow> Inl e
             | Inr best \<Rightarrow>
            (case get_values so dat best of
               Inl e \<Rightarrow> Inl e
             | Inr bvals \<Rightarrow>
            (case make_subtrees so self dat attrs target best bvals [] of
               Inl e \<Rightarrow> Inl e
             | Inr kids \<Rightarrow> Inr (Dict [(best, Dict kids)]))))))"
| "make_subtrees so self dat attrs target best [] kids = Inr kids"
| "make_subtrees so self dat attrs target best (val # rest) kids =
     (case get_examples dat best val of
        Inl e \<Rightarrow> Inl e
      | Inr examples \<Rightarrow>
     (case make_tree so self examples (filter (\<lambda>attr. attr \<noteq> best) attrs) target of
        Inl e \<Rightarrow> Inl e
      | Inr subtree \<Rightarrow>
          make_subtrees so self dat attrs target best rest (dict_set kids val subtree)))"
  by pat_completeness auto
termination
proof (relation "measures
    [\<lambda>x. case x of
            Inl (so, self, dat, attrs, target) \<Rightarrow> 2 * length attrs
          | Inr (so, self, dat, attrs, target, best, bvals, kids) \<Rightarrow>
              2 * length (filter (\<lambda>attr. attr \<noteq> best) attrs) + 1,
     \<lambda>x. case x of
            Inl (so, self, dat, attrs, target) \<Rightarrow> 0
          | Inr (so, self, dat, attrs, target, best, bvals, kids) \<Rightarrow> length bvals]",
    goal_cases)
  case 1
  show ?case by simp
next
  case (2 so self dat attrs target vals dflt best bvals)
  have "best \<in> set attrs"
    using 2 best_in_attributes by blast
  then have "length (filter (\<lambda>attr. attr \<noteq> best) attrs) < length attrs"
    by (simp add: length_filter_less)
  then show ?case by simp
next
  case 3
  then show ?case by simp
next
  case 4
  then show ?case by simp
qed

text \<open>\<^verbatim>\<open>train\<close>: \<^verbatim>\<open>self.tree = self._make_tree(self.data, self.attributes, self.target_attr)\<close>.\<close>

definition train :: "set_order \<Rightarrow> DTree \<Rightarrow> error + DTree" where
  "train so self =
     (case make_tree so self (data self) (attributes self) (target_attr self) of
        Inl e \<Rightarrow> Inl e
      | Inr t \<Rightarrow> Inr (self\<lparr>tree := t\<rparr>))"

section \<open>Classifier\<close>

text \<open>
  \<^verbatim>\<open>use\<close>. A \<^verbatim>\<open>tree\<close> argument that is \<^verbatim>\<open>None\<close> is replaced by \<^verbatim>\<open>self.tree\<close>, also in a
  recursive call, so the recursion is not structural: the function is partial, and
  \<open>None\<close> is a call that does not return. A leaf is recognised by
  \<^verbatim>\<open>type(tree) == type("string")\<close>. After that \<^verbatim>\<open>tree.keys()[0]\<close> needs a \<^verbatim>\<open>dict\<close>
  (AttributeError) with a key (IndexError), \<^verbatim>\<open>record[attr] not in tree[attr]\<close> needs
  a container (a string is searched for a substring and cannot be indexed by one), and
  \<^verbatim>\<open>tree[attr][record[attr]]\<close> is the subtree.
\<close>

partial_function (option) use :: "DTree \<Rightarrow> py_record \<Rightarrow> pyobj \<Rightarrow> (error + scalar) option" where
  "use self r t0 =
    (let t = (if t0 = Scalar SNone then tree self else t0) in
     case t of
       Scalar (SStr s) \<Rightarrow> Some (Inr (SStr s))
     | Scalar _ \<Rightarrow> Some (Inl AttributeError)
     | Dict [] \<Rightarrow> Some (Inl IndexError)
     | Dict ((attr, sub) # _) \<Rightarrow>
         (case getitem r attr of
            Inl _ \<Rightarrow> Some (Inr (SStr ''unknown''))
          | Inr v \<Rightarrow>
              (case sub of
                 Dict kids \<Rightarrow>
                   (case map_of kids v of
                      None \<Rightarrow> Some (Inr (SStr ''unknown''))
                    | Some t' \<Rightarrow> use self r t')
               | Scalar (SStr s) \<Rightarrow>
                   (case v of
                      SStr x \<Rightarrow>
                        if sublist x s then Some (Inl TypeError)
                        else Some (Inr (SStr ''unknown''))
                    | _ \<Rightarrow> Some (Inl TypeError))
               | Scalar _ \<Rightarrow> Some (Inl TypeError))))"

section \<open>Facts about the builder\<close>

declare make_tree.simps [simp del]

text \<open>
  What every run of CPython guarantees about \<^verbatim>\<open>list(set(lst))\<close>: the elements of \<^verbatim>\<open>lst\<close>,
  each once. The order is left open.
\<close>

definition set_order_ok :: "set_order \<Rightarrow> bool" where
  "set_order_ok so \<longleftrightarrow> (\<forall>xs. set (so xs) = set xs \<and> distinct (so xs))"

lemma set_order_ok_remdups: "set_order_ok remdups"
  by (simp add: set_order_ok_def)

text \<open>
  One iteration of the loop of \<^verbatim>\<open>_make_tree\<close>: the subtree built for one value of the
  split attribute.
\<close>

definition subtree_for :: "set_order \<Rightarrow> DTree \<Rightarrow> py_record list \<Rightarrow> scalar list \<Rightarrow> scalar \<Rightarrow> scalar \<Rightarrow> scalar \<Rightarrow> error + pyobj" where
  "subtree_for so self dat attrs target best val =
     (case get_examples dat best val of
        Inl e \<Rightarrow> Inl e
      | Inr examples \<Rightarrow> make_tree so self examples (filter (\<lambda>attr. attr \<noteq> best) attrs) target)"

lemma make_subtrees_Cons:
  "make_subtrees so self dat attrs target best (val # rest) kids =
     (case subtree_for so self dat attrs target best val of
        Inl e \<Rightarrow> Inl e
      | Inr subtree \<Rightarrow> make_subtrees so self dat attrs target best rest (dict_set kids val subtree))"
  by (simp add: subtree_for_def split: sum.splits)

lemma map_of_dict_set: "map_of (dict_set kids k v) = (map_of kids)(k \<mapsto> v)"
  by (induction kids) auto

lemma make_subtrees_other:
  "make_subtrees so self dat attrs target best bvals kids0 = Inr kids \<Longrightarrow> v \<notin> set bvals \<Longrightarrow>
     map_of kids v = map_of kids0 v"
proof (induction bvals arbitrary: kids0)
  case Nil
  then show ?case by simp
next
  case (Cons val rest)
  then show ?case
    by (auto simp: make_subtrees_Cons map_of_dict_set simp del: make_subtrees.simps split: sum.splits)
qed

lemma make_subtrees_lookup:
  "make_subtrees so self dat attrs target best bvals kids0 = Inr kids \<Longrightarrow> v \<in> set bvals \<Longrightarrow>
     \<exists>t. subtree_for so self dat attrs target best v = Inr t \<and> map_of kids v = Some t"
proof (induction bvals arbitrary: kids0)
  case Nil
  then show ?case by simp
next
  case (Cons val rest)
  from Cons.prems(1) obtain t where t: "subtree_for so self dat attrs target best val = Inr t"
    and rest: "make_subtrees so self dat attrs target best rest (dict_set kids0 val t) = Inr kids"
    by (auto simp: make_subtrees_Cons simp del: make_subtrees.simps split: sum.splits)
  show ?case
  proof (cases "v \<in> set rest")
    case True
    then show ?thesis using Cons.IH [OF rest] by simp
  next
    case False
    then have "v = val" using Cons.prems(2) by simp
    moreover have "map_of kids v = map_of (dict_set kids0 val t) v"
      using make_subtrees_other [OF rest False] .
    ultimately show ?thesis using t by (simp add: map_of_dict_set)
  qed
qed

lemma make_subtrees_succeeds:
  "(\<forall>v \<in> set bvals. \<exists>t. subtree_for so self dat attrs target best v = Inr t) \<Longrightarrow>
     \<exists>kids. make_subtrees so self dat attrs target best bvals kids0 = Inr kids"
proof (induction bvals arbitrary: kids0)
  case Nil
  then show ?case by simp
next
  case (Cons val rest)
  then show ?case
    by (auto simp: make_subtrees_Cons simp del: make_subtrees.simps split: sum.splits)
qed

lemma majority_loop_cases:
  "majority_loop lst cands h m = m \<or> majority_loop lst cands h m \<in> set cands"
proof (induction cands arbitrary: h m)
  case Nil
  then show ?case by simp
next
  case (Cons c cs)
  show ?case
    using Cons.IH [of "count_list lst c" c] Cons.IH [of h m] by auto
qed

lemma majority_loop_mem:
  "\<exists>c \<in> set cands. h < count_list lst c \<Longrightarrow> majority_loop lst cands h m \<in> set cands"
proof (induction cands arbitrary: h m)
  case Nil
  then show ?case by simp
next
  case (Cons c cs)
  show ?case
  proof (cases "h < count_list lst c")
    case True
    then show ?thesis
      using majority_loop_cases [of lst cs "count_list lst c" c] by auto
  next
    case False
    then have "\<exists>c' \<in> set cs. h < count_list lst c'"
      using Cons.prems by auto
    then show ?thesis using False Cons.IH by auto
  qed
qed

lemma majority_value_single:
  assumes "set_order_ok so" and "column dat target = Inr lst" and "set lst = {x}"
  shows "majority_value so dat target = Inr x"
proof -
  have s: "set (so lst) = {x}"
    using assms by (simp add: set_order_ok_def)
  have "x \<in> set lst" using assms(3) by simp
  then have "0 < count_list lst x"
    using count_list_0_iff [of lst x] by auto
  then have "\<exists>c \<in> set (so lst). 0 < count_list lst c"
    using s by simp
  then have "majority_loop lst (so lst) 0 SNone \<in> set (so lst)"
    by (rule majority_loop_mem)
  then show ?thesis
    using s assms(2) by (simp add: majority_value_def)
qed

section \<open>Classification of leaves\<close>

lemma majority_loop_Nil [simp]: "majority_loop [] xs h m = m"
  by (induction xs arbitrary: h m) auto

text \<open>
  A dataset with the target value \<^verbatim>\<open>None\<close>, and the tree that training builds from it: the
  leaf for \<^verbatim>\<open>a = 0\<close> is \<^verbatim>\<open>None\<close>.
\<close>

definition none_data :: "py_record list" where
  "none_data = [[''a'' \<mapsto> SInt 0, ''t'' \<mapsto> SNone], [''a'' \<mapsto> SInt 1, ''t'' \<mapsto> SStr ''yes'']]"

definition none_tree :: pyobj where
  "none_tree = Dict [(SStr ''a'', Dict [(SInt 0, Scalar SNone), (SInt 1, Scalar (SStr ''yes''))])]"

lemma none_train:
  "train remdups (init none_data [SStr ''a'', SStr ''t''] (SStr ''t''))
     = Inr ((init none_data [SStr ''a'', SStr ''t''] (SStr ''t''))\<lparr>tree := none_tree\<rparr>)"
  by (simp add: train_def init_def none_data_def none_tree_def make_tree.simps
      majority_value_def getitem_def choose_attribute_def gain_def entropy_def
      get_values_def get_examples_def)

lemma use_restart:
  assumes root: "tree self = Dict ((attr, Dict kids) # others)"
    and v: "getitem r attr = Inr v" and k: "map_of kids v = Some (Scalar SNone)"
  shows "use self r (Scalar SNone) = None"
proof (rule ccontr)
  assume "use self r (Scalar SNone) \<noteq> None"
  then obtain y where y: "use self r (Scalar SNone) = Some y" by auto
  have aux: "self' = self \<and> r' = r \<and> (t = Scalar SNone \<or> t = tree self) \<longrightarrow> False"
    if u: "use self' r' t = Some y'" for self' r' t y'
  proof (rule use.raw_induct [where P = "\<lambda>self' r' t y'.
      self' = self \<and> r' = r \<and> (t = Scalar SNone \<or> t = tree self) \<longrightarrow> False", OF _ u], goal_cases)
    case (1 u self' r' t0 y')
    show ?case
    proof
      assume a: "self' = self \<and> r' = r \<and> (t0 = Scalar SNone \<or> t0 = tree self)"
      then have e: "self' = self" "r' = r" and t: "t0 = Scalar SNone \<or> t0 = tree self"
        by auto
      have "u self r (Scalar SNone) = Some y'"
        using 1(2) t unfolding e by (auto simp: root v k)
      then show False using 1(1) by blast
    qed
  qed
  show False using aux [OF y] by simp
qed


text \<open>
  A \<^verbatim>\<open>None\<close> leaf below the root is not a failure. In the tree trained on \<open>none_data\<close> the
  record \<^verbatim>\<open>{a: 0}\<close> reaches the leaf \<^verbatim>\<open>None\<close>; \<^verbatim>\<open>use\<close> replaces it by \<^verbatim>\<open>self.tree\<close> before
  the type test and starts again from the root, so the call never returns (CPython stops
  it when the recursion limit is reached). When the same tree is passed explicitly to an
  object whose \<^verbatim>\<open>self.tree\<close> is the string \<^verbatim>\<open>"yes"\<close>, the \<^verbatim>\<open>None\<close> leaf is classified as
  \<^verbatim>\<open>"yes"\<close>.
\<close>

theorem none_leaf_counterexample:
  "\<exists>self'. train remdups (init none_data [SStr ''a'', SStr ''t''] (SStr ''t'')) = Inr self'
     \<and> tree self' = Dict [(SStr ''a'', Dict [(SInt 0, Scalar SNone), (SInt 1, Scalar (SStr ''yes''))])]
     \<and> use self' [''a'' \<mapsto> SInt 0] (Scalar SNone) = None
     \<and> use (self'\<lparr>tree := Scalar (SStr ''yes'')\<rparr>) [''a'' \<mapsto> SInt 0]
          (Dict [(SStr ''a'', Dict [(SInt 0, Scalar SNone), (SInt 1, Scalar (SStr ''yes''))])])
        = Some (Inr (SStr ''yes''))"
proof -
  let ?self = "(init none_data [SStr ''a'', SStr ''t''] (SStr ''t''))\<lparr>tree := none_tree\<rparr>"
  have "use ?self [''a'' \<mapsto> SInt 0] (Scalar SNone) = None"
    by (rule use_restart [where attr = "SStr ''a''" and v = "SInt 0"
          and kids = "[(SInt 0, Scalar SNone), (SInt 1, Scalar (SStr ''yes''))]" and others = "[]"])
       (simp_all add: none_tree_def getitem_def)
  moreover have "use (?self\<lparr>tree := Scalar (SStr ''yes'')\<rparr>) [''a'' \<mapsto> SInt 0] none_tree
      = Some (Inr (SStr ''yes''))"
    by (simp add: use.simps none_tree_def getitem_def)
  ultimately show ?thesis
    by (simp add: none_train none_tree_def)
qed


text \<open>
  Claim C10, amended. A leaf is recognised only by its type being \<^verbatim>\<open>str\<close>: when the current
  node is a scalar that is neither a string nor \<^verbatim>\<open>None\<close> (a number), or is \<^verbatim>\<open>None\<close> while
  \<^verbatim>\<open>self.tree\<close> is \<^verbatim>\<open>None\<close> too (as after training on the empty dataset), \<^verbatim>\<open>use\<close> does not
  return it: the call goes on to \<^verbatim>\<open>tree.keys()\<close> and raises. Training on the empty dataset
  produces that \<^verbatim>\<open>None\<close> leaf.
\<close>

theorem use_non_string_leaf_fails:
  "(\<forall>s. v \<noteq> SStr s) \<Longrightarrow> (v = SNone \<Longrightarrow> tree self = Scalar SNone) \<Longrightarrow>
     use self r (Scalar v) = Some (Inl AttributeError)
     \<and> make_tree so self [] attrs target = Inr (Scalar SNone)"
  by (cases v) (auto simp: use.simps make_tree.simps majority_value_def)

theorem use_non_string_leaf_fails_witness:
  "(use (init [] [] SNone) Map.empty (Scalar (SInt 7)) = Some (Inl AttributeError)
     \<and> make_tree remdups (init [] [] SNone) [] [] SNone = Inr (Scalar SNone))
   \<and> (use (init [] [] SNone) Map.empty (Scalar SNone) = Some (Inl AttributeError)
     \<and> make_tree remdups (init [] [] SNone) [] [] SNone = Inr (Scalar SNone))"
  using use_non_string_leaf_fails [of "SInt 7" "init [] [] SNone" Map.empty remdups "[]" SNone]
    use_non_string_leaf_fails [of SNone "init [] [] SNone" Map.empty remdups "[]" SNone]
  by (simp add: init_def)

section \<open>The XOR scenario\<close>

text \<open>The data of the \<^verbatim>\<open>__main__\<close> block of \<^verbatim>\<open>dtree.py\<close>.\<close>

definition xor_attributes :: "scalar list" where
  "xor_attributes = [SStr ''a'', SStr ''b'', SStr ''xor'']"

definition xor_record :: "int \<Rightarrow> int \<Rightarrow> string \<Rightarrow> py_record" where
  "xor_record a b x = [''a'' \<mapsto> SInt a, ''b'' \<mapsto> SInt b, ''xor'' \<mapsto> SStr x]"

definition xor_data :: "py_record list" where
  "xor_data = [xor_record 0 0 ''no'', xor_record 0 1 ''yes'', xor_record 1 0 ''yes'', xor_record 1 1 ''no'']"

lemma getitem_xor [simp]:
  "getitem (xor_record a b x) (SStr ''a'') = Inr (SInt a)"
  "getitem (xor_record a b x) (SStr ''b'') = Inr (SInt b)"
  "getitem (xor_record a b x) (SStr ''xor'') = Inr (SStr x)"
  by (simp_all add: getitem_def xor_record_def)

lemma log2_half [simp]: "log 2 (1 / 2) = - 1"
  by (simp add: log_divide)


lemma leaf_level:
  assumes "set_order_ok so" and "target_attr self = SStr ''xor''"
  shows "make_tree so self [xor_record a b x] [SStr ''xor''] (SStr ''xor'') = Inr (Scalar (SStr x))"
proof -
  have "majority_value so [xor_record a b x] (SStr ''xor'') = Inr (SStr x)"
    by (rule majority_value_single [OF assms(1), where lst = "[SStr x]"]) simp_all
  then show ?thesis
    using assms(2) by (simp add: make_tree.simps)
qed

lemma mid_level:
  assumes ok: "set_order_ok so" and self: "target_attr self = SStr ''xor''"
    and ne: "a1 \<noteq> a2" "x1 \<noteq> x2"
  shows "\<exists>kids. make_tree so self [xor_record a1 b x1, xor_record a2 b x2]
             [SStr ''a'', SStr ''xor''] (SStr ''xor'') = Inr (Dict [(SStr ''a'', Dict kids)])
           \<and> map_of kids (SInt a1) = Some (Scalar (SStr x1))
           \<and> map_of kids (SInt a2) = Some (Scalar (SStr x2))"
proof -
  let ?dat = "[xor_record a1 b x1, xor_record a2 b x2]"
  let ?attrs = "[SStr ''a'', SStr ''xor'']"
  let ?t = "SStr ''xor''"
  let ?a = "SStr ''a''"
  have ga: "gain ?dat ?a ?t = Inr 1"
    using ne by (simp add: gain_def entropy_def)
  have gx: "\<exists>g. gain ?dat ?t ?t = Inr g"
    using ne by (simp add: gain_def entropy_def)
  have ch: "choose_attribute ?dat ?attrs ?t = Inr ?a"
    using ga gx by (auto simp: choose_attribute_def)
  have gv: "get_values so ?dat ?a = Inr (so [SInt a1, SInt a2])"
    by (simp add: get_values_def)
  have s1: "subtree_for so self ?dat ?attrs ?t ?a (SInt a1) = Inr (Scalar (SStr x1))"
    using ne leaf_level [OF ok self] by (simp add: subtree_for_def get_examples_def)
  have s2: "subtree_for so self ?dat ?attrs ?t ?a (SInt a2) = Inr (Scalar (SStr x2))"
    using ne leaf_level [OF ok self] by (simp add: subtree_for_def get_examples_def)
  have st: "set (so [SInt a1, SInt a2]) = {SInt a1, SInt a2}"
    using ok by (simp add: set_order_ok_def)
  then have "\<forall>v \<in> set (so [SInt a1, SInt a2]). \<exists>t. subtree_for so self ?dat ?attrs ?t ?a v = Inr t"
    using s1 s2 by auto
  then obtain kids where
    kids: "make_subtrees so self ?dat ?attrs ?t ?a (so [SInt a1, SInt a2]) [] = Inr kids"
    using make_subtrees_succeeds by blast
  have k1: "map_of kids (SInt a1) = Some (Scalar (SStr x1))"
    using make_subtrees_lookup [OF kids, of "SInt a1"] st s1 by auto
  have k2: "map_of kids (SInt a2) = Some (Scalar (SStr x2))"
    using make_subtrees_lookup [OF kids, of "SInt a2"] st s2 by auto
  have mv: "\<exists>d. majority_value so ?dat ?t = Inr d"
    by (simp add: majority_value_def)
  have "make_tree so self ?dat ?attrs ?t = Inr (Dict [(?a, Dict kids)])"
    using ne self mv ch gv kids by (subst make_tree.simps) auto
  then show ?thesis using k1 k2 by blast
qed


lemma top_level:
  assumes ok: "set_order_ok so" and self: "target_attr self = SStr ''xor''"
  shows "\<exists>kids k0 k1. make_tree so self xor_data xor_attributes (SStr ''xor'') = Inr (Dict [(SStr ''b'', Dict kids)])
           \<and> map_of kids (SInt 0) = Some (Dict [(SStr ''a'', Dict k0)])
           \<and> map_of k0 (SInt 0) = Some (Scalar (SStr ''no''))
           \<and> map_of k0 (SInt 1) = Some (Scalar (SStr ''yes''))
           \<and> map_of kids (SInt 1) = Some (Dict [(SStr ''a'', Dict k1)])
           \<and> map_of k1 (SInt 0) = Some (Scalar (SStr ''yes''))
           \<and> map_of k1 (SInt 1) = Some (Scalar (SStr ''no''))"
proof -
  let ?t = "SStr ''xor''"
  let ?b = "SStr ''b''"
  let ?bvals = "so [SInt 0, SInt 1, SInt 0, SInt 1]"
  have ga: "gain xor_data (SStr ''a'') ?t = Inr 0"
    by (simp add: gain_def entropy_def xor_data_def)
  have gb: "gain xor_data ?b ?t = Inr 0"
    by (simp add: gain_def entropy_def xor_data_def)
  have gx: "gain xor_data ?t ?t = Inr 1"
    by (simp add: gain_def entropy_def xor_data_def)
  have ch: "choose_attribute xor_data xor_attributes ?t = Inr ?b"
    by (simp add: choose_attribute_def xor_attributes_def ga gb gx)
  have gv: "get_values so xor_data ?b = Inr ?bvals"
    by (simp add: get_values_def xor_data_def)
  have f: "filter (\<lambda>attr. attr \<noteq> ?b) xor_attributes = [SStr ''a'', ?t]"
    by (simp add: xor_attributes_def)
  obtain k0 where s0: "subtree_for so self xor_data xor_attributes ?t ?b (SInt 0)
        = Inr (Dict [(SStr ''a'', Dict k0)])"
    and k00: "map_of k0 (SInt 0) = Some (Scalar (SStr ''no''))"
    and k01: "map_of k0 (SInt 1) = Some (Scalar (SStr ''yes''))"
    using mid_level [OF ok self, of 1 0 "''yes''" "''no''" 0]
    by (auto simp: subtree_for_def get_examples_def xor_data_def f)
  obtain k1 where s1: "subtree_for so self xor_data xor_attributes ?t ?b (SInt 1)
        = Inr (Dict [(SStr ''a'', Dict k1)])"
    and k10: "map_of k1 (SInt 0) = Some (Scalar (SStr ''yes''))"
    and k11: "map_of k1 (SInt 1) = Some (Scalar (SStr ''no''))"
    using mid_level [OF ok self, of 1 0 "''no''" "''yes''" 1]
    by (auto simp: subtree_for_def get_examples_def xor_data_def f)
  have st: "set ?bvals = {SInt 0, SInt 1}"
    using ok by (auto simp: set_order_ok_def)
  then have "\<forall>v \<in> set ?bvals. \<exists>t. subtree_for so self xor_data xor_attributes ?t ?b v = Inr t"
    using s0 s1 by auto
  then obtain kids where
    kids: "make_subtrees so self xor_data xor_attributes ?t ?b ?bvals [] = Inr kids"
    using make_subtrees_succeeds by blast
  have m0: "map_of kids (SInt 0) = Some (Dict [(SStr ''a'', Dict k0)])"
    using make_subtrees_lookup [OF kids, of "SInt 0"] st s0 by auto
  have m1: "map_of kids (SInt 1) = Some (Dict [(SStr ''a'', Dict k1)])"
    using make_subtrees_lookup [OF kids, of "SInt 1"] st s1 by auto
  have mv: "\<exists>d. majority_value so xor_data ?t = Inr d"
    by (simp add: majority_value_def xor_data_def)
  have col: "column xor_data ?t = Inr [SStr ''no'', SStr ''yes'', SStr ''yes'', SStr ''no'']"
    by (simp add: xor_data_def)
  have ne: "xor_data \<noteq> []" "length xor_attributes = 3"
    by (simp_all add: xor_data_def xor_attributes_def)
  have "make_tree so self xor_data xor_attributes ?t = Inr (Dict [(?b, Dict kids)])"
    using self mv ch gv kids col ne by (subst make_tree.simps) auto
  then show ?thesis
    using m0 m1 k00 k01 k10 k11 by blast
qed

text \<open>
  Claim C2. Training on the four XOR records with attributes \<^verbatim>\<open>["a", "b", "xor"]\<close> and
  target \<^verbatim>\<open>"xor"\<close> succeeds, whatever the iteration order of sets, and the trained tree
  classifies \<^verbatim>\<open>{a:0, b:1}\<close> and \<^verbatim>\<open>{a:1, b:0}\<close> as \<^verbatim>\<open>"yes"\<close>, \<^verbatim>\<open>{a:1, b:1}\<close> and
  \<^verbatim>\<open>{a:0, b:0}\<close> as \<^verbatim>\<open>"no"\<close>.
\<close>

theorem xor_scenario:
  assumes "set_order_ok so"
  shows "\<exists>self'. train so (init xor_data xor_attributes (SStr ''xor'')) = Inr self'
           \<and> use self' [''a'' \<mapsto> SInt 0, ''b'' \<mapsto> SInt 1] (Scalar SNone) = Some (Inr (SStr ''yes''))
           \<and> use self' [''a'' \<mapsto> SInt 1, ''b'' \<mapsto> SInt 0] (Scalar SNone) = Some (Inr (SStr ''yes''))
           \<and> use self' [''a'' \<mapsto> SInt 1, ''b'' \<mapsto> SInt 1] (Scalar SNone) = Some (Inr (SStr ''no''))
           \<and> use self' [''a'' \<mapsto> SInt 0, ''b'' \<mapsto> SInt 0] (Scalar SNone) = Some (Inr (SStr ''no''))"
proof -
  let ?self = "init xor_data xor_attributes (SStr ''xor'')"
  have self: "target_attr ?self = SStr ''xor''"
    by (simp add: init_def)
  from top_level [OF assms self] obtain kids k0 k1 where
    mt: "make_tree so ?self xor_data xor_attributes (SStr ''xor'') = Inr (Dict [(SStr ''b'', Dict kids)])"
    and m: "map_of kids (SInt 0) = Some (Dict [(SStr ''a'', Dict k0)])"
      "map_of k0 (SInt 0) = Some (Scalar (SStr ''no''))"
      "map_of k0 (SInt 1) = Some (Scalar (SStr ''yes''))"
      "map_of kids (SInt 1) = Some (Dict [(SStr ''a'', Dict k1)])"
      "map_of k1 (SInt 0) = Some (Scalar (SStr ''yes''))"
      "map_of k1 (SInt 1) = Some (Scalar (SStr ''no''))"
    by blast
  let ?self' = "?self\<lparr>tree := Dict [(SStr ''b'', Dict kids)]\<rparr>"
  have tr: "train so ?self = Inr ?self'"
    using mt by (simp add: train_def init_def)
  have u: "use ?self' r (Scalar SNone) = Some (Inr (SStr x))"
    if "r ''a'' = Some (SInt a)" "r ''b'' = Some (SInt b)"
      "map_of kids (SInt b) = Some (Dict [(SStr ''a'', Dict k)])"
      "map_of k (SInt a) = Some (Scalar (SStr x))" for r a b k x
    using that by (simp add: use.simps [of ?self'] getitem_def)
  show ?thesis
    using tr u [of _ 0 1, OF _ _ m(4) m(5)] u [of _ 1 0, OF _ _ m(1) m(3)]
      u [of _ 1 1, OF _ _ m(4) m(6)] u [of _ 0 0, OF _ _ m(1) m(2)]
    by simp
qed

theorem xor_scenario_witness:
  "\<exists>self'. train remdups (init xor_data xor_attributes (SStr ''xor'')) = Inr self'
           \<and> use self' [''a'' \<mapsto> SInt 0, ''b'' \<mapsto> SInt 1] (Scalar SNone) = Some (Inr (SStr ''yes''))
           \<and> use self' [''a'' \<mapsto> SInt 1, ''b'' \<mapsto> SInt 0] (Scalar SNone) = Some (Inr (SStr ''yes''))
           \<and> use self' [''a'' \<mapsto> SInt 1, ''b'' \<mapsto> SInt 1] (Scalar SNone) = Some (Inr (SStr ''no''))
           \<and> use self' [''a'' \<mapsto> SInt 0, ''b'' \<mapsto> SInt 0] (Scalar SNone) = Some (Inr (SStr ''no''))"
  using xor_scenario [OF set_order_ok_remdups] .

section \<open>The unknown sentinel\<close>

text \<open>
  A dataset whose target values are \<^verbatim>\<open>"unknown"\<close> and \<^verbatim>\<open>"yes"\<close>, and the tree that training
  builds from it.
\<close>

definition unknown_data :: "py_record list" where
  "unknown_data = [[''a'' \<mapsto> SInt 0, ''t'' \<mapsto> SStr ''unknown''], [''a'' \<mapsto> SInt 1, ''t'' \<mapsto> SStr ''yes'']]"

definition unknown_tree :: pyobj where
  "unknown_tree = Dict [(SStr ''a'', Dict [(SInt 0, Scalar (SStr ''unknown'')), (SInt 1, Scalar (SStr ''yes''))])]"

lemma unknown_train:
  "train remdups (init unknown_data [SStr ''a'', SStr ''t''] (SStr ''t''))
     = Inr ((init unknown_data [SStr ''a'', SStr ''t''] (SStr ''t''))\<lparr>tree := unknown_tree\<rparr>)"
  by (simp add: train_def init_def unknown_data_def unknown_tree_def make_tree.simps
      majority_value_def getitem_def choose_attribute_def gain_def entropy_def
      get_values_def get_examples_def)

text \<open>
  The sentinel of \<^verbatim>\<open>use\<close> is the plain string \<^verbatim>\<open>"unknown"\<close>. In the tree trained on
  \<open>unknown_data\<close> the record \<^verbatim>\<open>{a: 0}\<close> reaches the leaf whose real label is \<^verbatim>\<open>"unknown"\<close>,
  and the records \<^verbatim>\<open>{a: 2}\<close> (a value never observed) and \<^verbatim>\<open>{}\<close> (attribute absent) get the
  sentinel: the three results are the same value, so the sentinel is not distinct from
  every real label.
\<close>

theorem unknown_sentinel_counterexample:
  "\<exists>self'. train remdups (init unknown_data [SStr ''a'', SStr ''t''] (SStr ''t'')) = Inr self'
     \<and> use self' [''a'' \<mapsto> SInt 0] (Scalar SNone) = Some (Inr (SStr ''unknown''))
     \<and> use self' [''a'' \<mapsto> SInt 2] (Scalar SNone) = Some (Inr (SStr ''unknown''))
     \<and> use self' Map.empty (Scalar SNone) = Some (Inr (SStr ''unknown''))"
  by (simp add: unknown_train unknown_tree_def use.simps getitem_def)

text \<open>
  Claim C6, amended. At a split node \<^verbatim>\<open>{attr: {value: subtree, ...}}\<close>, a record that lacks
  \<^verbatim>\<open>attr\<close>, or whose value for \<^verbatim>\<open>attr\<close> is not a key of the children, is classified as the
  string \<^verbatim>\<open>"unknown"\<close>; nothing is raised.
\<close>

theorem use_unknown:
  assumes "t = Dict ((attr, Dict kids) # others)"
    and "getitem r attr = Inl e \<or> (\<exists>v. getitem r attr = Inr v \<and> map_of kids v = None)"
  shows "use self r t = Some (Inr (SStr ''unknown''))"
  using assms by (subst use.simps) (auto split: sum.splits)

theorem use_unknown_witness:
  "use (init [] [] SNone) [''a'' \<mapsto> SInt 2] (Dict [(SStr ''a'', Dict [(SInt 0, Scalar (SStr ''yes''))])])
     = Some (Inr (SStr ''unknown''))
   \<and> use (init [] [] SNone) Map.empty (Dict [(SStr ''a'', Dict [(SInt 0, Scalar (SStr ''yes''))])])
     = Some (Inr (SStr ''unknown''))"
  using use_unknown [of "Dict [(SStr ''a'', Dict [(SInt 0, Scalar (SStr ''yes''))])]" "SStr ''a''"
        "[(SInt 0, Scalar (SStr ''yes''))]" "[]" "[''a'' \<mapsto> SInt 2]" KeyError "init [] [] SNone"]
    use_unknown [of "Dict [(SStr ''a'', Dict [(SInt 0, Scalar (SStr ''yes''))])]" "SStr ''a''"
        "[(SInt 0, Scalar (SStr ''yes''))]" "[]" Map.empty KeyError "init [] [] SNone"]
  by (simp add: getitem_def)

section \<open>Information gain\<close>

text \<open>
  The entropy and the gain are computed by loops over frequency tables. This section
  writes them as sums over the values that occur, and proves the information inequality:
  the entropy left after a split never exceeds the entropy before it.
\<close>

subsection \<open>The counting loop\<close>
















definition plogp :: "real \<Rightarrow> real \<Rightarrow> real" where
  "plogp f n = - f / n * log 2 (f / n)"


subsection \<open>The information inequality\<close>



subsection \<open>Counting pairs\<close>






lemma plogp_zero [simp]: "plogp 0 n = 0"
  by (simp add: plogp_def)

subsection \<open>The gain as a sum\<close>











section \<open>Best-attribute selection\<close>




lemma choose_loop_none:
  assumes "\<forall>c \<in> set attrs. \<exists>h. gain dat c target = Inr h \<and> (c = target \<or> h < bg)"
  shows "choose_loop dat target attrs bg ba = Inr ba"
  using assms by (induction attrs) auto







subsection \<open>Candidates without gain\<close>

lemma choose_loop_zero:
  assumes "\<forall>c \<in> set attrs. \<exists>h. gain dat c target = Inr h \<and> (c \<noteq> target \<longrightarrow> h = 0)"
  shows "choose_loop dat target attrs 0 ba
       = Inr (if filter (\<lambda>c. c \<noteq> target) attrs = [] then ba
              else last (filter (\<lambda>c. c \<noteq> target) attrs))"
  using assms by (induction attrs arbitrary: ba) auto


text \<open>
  In the XOR data the candidates \<^verbatim>\<open>a\<close> and \<^verbatim>\<open>b\<close> both have gain \<open>0\<close>: no gain exceeds the
  initial \<^verbatim>\<open>best_gain = 0.0\<close>. The selection still returns \<^verbatim>\<open>b\<close>, because the test is
  \<^verbatim>\<open>gain >= best_gain\<close>, and \<^verbatim>\<open>_make_tree\<close> builds a split on \<^verbatim>\<open>b\<close>, not a leaf.
\<close>

theorem zero_gain_counterexample:
  "gain xor_data (SStr ''a'') (SStr ''xor'') = Inr 0
     \<and> gain xor_data (SStr ''b'') (SStr ''xor'') = Inr 0
     \<and> choose_attribute xor_data xor_attributes (SStr ''xor'') = Inr (SStr ''b'')
     \<and> (\<exists>kids. make_tree remdups (init xor_data xor_attributes (SStr ''xor'')) xor_data xor_attributes
           (SStr ''xor'') = Inr (Dict [(SStr ''b'', Dict kids)]))"
proof -
  have ga: "gain xor_data (SStr ''a'') (SStr ''xor'') = Inr 0"
    by (simp add: gain_def entropy_def xor_data_def)
  have gb: "gain xor_data (SStr ''b'') (SStr ''xor'') = Inr 0"
    by (simp add: gain_def entropy_def xor_data_def)
  have gx: "gain xor_data (SStr ''xor'') (SStr ''xor'') = Inr 1"
    by (simp add: gain_def entropy_def xor_data_def)
  have ch: "choose_attribute xor_data xor_attributes (SStr ''xor'') = Inr (SStr ''b'')"
    by (simp add: choose_attribute_def xor_attributes_def ga gb gx)
  have "target_attr (init xor_data xor_attributes (SStr ''xor'')) = SStr ''xor''"
    by (simp add: init_def)
  from top_level [OF set_order_ok_remdups this] ga gb ch show ?thesis
    by blast
qed


text \<open>
  Claim C3, amended. When every candidate other than the target has gain \<open>0\<close> and \<open>b\<close> is
  the last of them in the list, \<^verbatim>\<open>_choose_attribute\<close> returns \<open>b\<close>; and whenever \<^verbatim>\<open>_make_tree\<close>
  reaches the selection on such data (the data is not empty, there are at least two
  attributes, the target values are not all equal) and returns, it returns a split node
  on \<open>b\<close>.
\<close>

theorem zero_gain_split:
  assumes z: "\<forall>c \<in> set attrs. \<exists>h. gain dat c target = Inr h \<and> (c \<noteq> target \<longrightarrow> h = 0)"
    and l: "filter (\<lambda>c. c \<noteq> target) attrs = cs @ [b]"
  shows "choose_attribute dat attrs target = Inr b
       \<and> (\<forall>t vals. dat \<noteq> [] \<and> 2 \<le> length attrs \<and> column dat (target_attr self) = Inr vals
              \<and> count_list vals (hd vals) \<noteq> length vals
              \<and> make_tree so self dat attrs target = Inr t
            \<longrightarrow> (\<exists>kids. t = Dict [(b, Dict kids)]))"
proof (intro conjI allI impI)
  show ch: "choose_attribute dat attrs target = Inr b"
    using choose_loop_zero [OF z, of SNone] l by (simp add: choose_attribute_def)
  fix t vals
  assume a: "dat \<noteq> [] \<and> 2 \<le> length attrs \<and> column dat (target_attr self) = Inr vals
      \<and> count_list vals (hd vals) \<noteq> length vals
      \<and> make_tree so self dat attrs target = Inr t"
  then have "make_tree so self dat attrs target = Inr t" by simp
  then show "\<exists>kids. t = Dict [(b, Dict kids)]"
    using a ch by (subst (asm) make_tree.simps) (auto split: sum.splits if_splits)
qed

theorem zero_gain_split_witness:
  "choose_attribute xor_data xor_attributes (SStr ''xor'') = Inr (SStr ''b'')
     \<and> (\<exists>t kids. make_tree remdups (init xor_data xor_attributes (SStr ''xor'')) xor_data xor_attributes
           (SStr ''xor'') = Inr t \<and> t = Dict [(SStr ''b'', Dict kids)])"
proof -
  have z: "\<forall>c \<in> set xor_attributes. \<exists>h. gain xor_data c (SStr ''xor'') = Inr h \<and> (c \<noteq> SStr ''xor'' \<longrightarrow> h = 0)"
    by (simp add: xor_attributes_def gain_def entropy_def xor_data_def)
  have l: "filter (\<lambda>c. c \<noteq> SStr ''xor'') xor_attributes = [SStr ''a''] @ [SStr ''b'']"
    by (simp add: xor_attributes_def)
  have "target_attr (init xor_data xor_attributes (SStr ''xor'')) = SStr ''xor''"
    by (simp add: init_def)
  from top_level [OF set_order_ok_remdups this]
  obtain t where t: "make_tree remdups (init xor_data xor_attributes (SStr ''xor'')) xor_data xor_attributes
           (SStr ''xor'') = Inr t"
    by blast
  have c: "column xor_data (target_attr (init xor_data xor_attributes (SStr ''xor'')))
      = Inr [SStr ''no'', SStr ''yes'', SStr ''yes'', SStr ''no'']"
    by (simp add: init_def xor_data_def)
  have n: "xor_data \<noteq> []" "2 \<le> length xor_attributes"
    by (simp_all add: xor_data_def xor_attributes_def)
  from zero_gain_split [OF z l, of "init xor_data xor_attributes (SStr ''xor'')" remdups] t c n
  show ?thesis by simp
qed

section \<open>Termination\<close>
















end
